theory Spec2Isabelle
  imports Complex_Main "HOL-Library.Word" "HOL-Library.Multiset" "HOL-Library.Sublist"
    "HOL-Library.List_Lexorder"
begin

section \<open>JavaScript strings\<close>

text \<open>
  A JavaScript string is a sequence of 16-bit code units.  ASCII literals of the
  source are written \<open>js ''...''\<close>.
\<close>

type_synonym jschar = "16 word"
type_synonym jsstring = "jschar list"

definition js :: "string \<Rightarrow> jsstring" where
  "js s = map (\<lambda>c. of_char c) s"

text \<open>
  \<open>String.prototype.split\<close> with a one-code-unit separator and no limit: the
  pieces between consecutive separators, so that \<open>n\<close> separators give \<open>n + 1\<close>
  pieces and the empty string gives one empty piece.
\<close>

fun split :: "jschar \<Rightarrow> jsstring \<Rightarrow> jsstring list" where
  "split sep [] = [[]]"
| "split sep (c # cs) =
     (let ps = split sep cs
      in if c = sep then [] # ps else (c # hd ps) # tl ps)"

text \<open>\<open>Array.prototype.join\<close> on an array of strings.\<close>

fun join :: "'a list \<Rightarrow> 'a list list \<Rightarrow> 'a list" where
  "join sep [] = []"
| "join sep [x] = x"
| "join sep (x # y # ys) = x @ sep @ join sep (y # ys)"

text \<open>
  The code units that \<open>String.prototype.trim\<close> strips: ECMAScript WhiteSpace
  (TAB, VT, FF, SP, NBSP, ZWNBSP and the other space separators) and LineTerminator
  (LF, CR, LS, PS).
\<close>

definition is_ws :: "jschar \<Rightarrow> bool" where
  "is_ws c \<longleftrightarrow>
     c \<in> set [0x0009, 0x000A, 0x000B, 0x000C, 0x000D, 0x0020, 0x00A0, 0x1680,
              0x2028, 0x2029, 0x202F, 0x205F, 0x3000, 0xFEFF]
     \<or> (0x2000 \<le> c \<and> c \<le> 0x200A)"

definition trim :: "jsstring \<Rightarrow> jsstring" where
  "trim s = rev (dropWhile is_ws (rev (dropWhile is_ws s)))"

section \<open>Path helpers of the dashboard\<close>

definition slash :: jschar where
  "slash = 0x2F"

text \<open>
  \<^verbatim>\<open>const parsePath = (pathStr) => pathStr.split('/').filter(p => p && p.trim() !== '')\<close>
  A string is truthy iff it is not empty.
\<close>

definition parsePath :: "jsstring \<Rightarrow> jsstring list" where
  "parsePath pathStr = filter (\<lambda>p. p \<noteq> [] \<and> trim p \<noteq> []) (split slash pathStr)"

text \<open>
  \<open>formatPath\<close> of DependencyCacheVisualizer.jsx.  The argument is \<open>None\<close> for
  \<open>null\<close>/\<open>undefined\<close>; an array, also the empty one, is truthy, and reading index 0
  of the empty array gives \<open>undefined\<close>, which is not \<open>'root'\<close>.
\<close>

definition displayPath :: "jsstring list option \<Rightarrow> jsstring list option" where
  "displayPath pathArray =
     (case pathArray of
        None \<Rightarrow> None
      | Some [] \<Rightarrow> Some []
      | Some (x # xs) \<Rightarrow> if x = js ''root'' then Some xs else Some (x # xs))"

definition formatPath :: "jsstring list option \<Rightarrow> jsstring" where
  "formatPath pathArray =
     (case displayPath pathArray of Some d \<Rightarrow> join (js ''/'') d | None \<Rightarrow> js '''')"

text \<open>\<open>formatPath\<close> of NodeDetailsPanel.jsx differs in the text for a missing path.\<close>

definition formatPath_details :: "jsstring list option \<Rightarrow> jsstring" where
  "formatPath_details pathArray =
     (case displayPath pathArray of Some d \<Rightarrow> join (js ''/'') d | None \<Rightarrow> js ''N/A'')"

text \<open>
  The wording of the interface description, to compare \<open>parsePath\<close> with: a piece is
  ignored when it is empty or holds white space only.
\<close>

definition ignored_segment :: "jsstring \<Rightarrow> bool" where
  "ignored_segment p \<longleftrightarrow> p = [] \<or> list_all is_ws p"

definition starts_with_root :: "jsstring list \<Rightarrow> bool" where
  "starts_with_root p = (case p of [] \<Rightarrow> False | x # _ \<Rightarrow> x = js ''root'')"

section \<open>JavaScript values\<close>

datatype jsnumber = Finite real | NaN | PosInfinity | NegInfinity

text \<open>
  An ordinary object is the list of its own enumerable properties, in enumeration order.
  \<open>JInherited k\<close> is the value that \<open>Object.prototype\<close> holds under the name \<open>k\<close>: a
  built-in function, or \<open>Object.prototype\<close> itself under \<open>__proto__\<close>.
\<close>

datatype jsval =
    JUndefined
  | JNull
  | JBool bool
  | JNum jsnumber
  | JStr jsstring
  | JArr "jsval list"
  | JObj "(jsstring \<times> jsval) list"
  | JInherited jsstring

type_synonym jsobject = "(jsstring \<times> jsval) list"

fun truthy :: "jsval \<Rightarrow> bool" where
  "truthy JUndefined = False"
| "truthy JNull = False"
| "truthy (JBool b) = b"
| "truthy (JNum n) = (case n of Finite r \<Rightarrow> r \<noteq> 0 | NaN \<Rightarrow> False | _ \<Rightarrow> True)"
| "truthy (JStr s) = (s \<noteq> [])"
| "truthy (JArr _) = True"
| "truthy (JObj _) = True"
| "truthy (JInherited _) = True"

text \<open>\<open>a || b\<close>\<close>

definition or_else :: "jsval \<Rightarrow> jsval \<Rightarrow> jsval" where
  "or_else a b = (if truthy a then a else b)"

fun Array_isArray :: "jsval \<Rightarrow> bool" where
  "Array_isArray (JArr _) = True"
| "Array_isArray _ = False"

definition Object_keys :: "(jsstring \<times> 'a) list \<Rightarrow> jsstring list" where
  "Object_keys obj = map fst obj"

definition Object_values :: "(jsstring \<times> 'a) list \<Rightarrow> 'a list" where
  "Object_values obj = map snd obj"

definition Object_prototype_names :: "jsstring list" where
  "Object_prototype_names =
     map js [''constructor'', ''__defineGetter__'', ''__defineSetter__'', ''hasOwnProperty'',
             ''__lookupGetter__'', ''__lookupSetter__'', ''isPrototypeOf'',
             ''propertyIsEnumerable'', ''toString'', ''valueOf'', ''__proto__'',
             ''toLocaleString'']"

text \<open>
  \<open>obj[key]\<close> on an ordinary object, such as one that \<open>JSON.parse\<close> or an object literal
  creates: the own property, else the property of \<open>Object.prototype\<close>, else \<open>undefined\<close>.
\<close>

definition get_property :: "jsobject \<Rightarrow> jsstring \<Rightarrow> jsval" where
  "get_property obj key =
     (case map_of obj key of
        Some v \<Rightarrow> v
      | None \<Rightarrow> if key \<in> set Object_prototype_names then JInherited key else JUndefined)"

text \<open>
  \<open>new Set(xs)\<close> keeps the first occurrence of every element, in insertion order, and
  \<open>Array.from\<close> lists a set in that order.
\<close>

fun Set_add_all :: "'a list \<Rightarrow> 'a list \<Rightarrow> 'a list" where
  "Set_add_all acc [] = acc"
| "Set_add_all acc (x # xs) = Set_add_all (if x \<in> set acc then acc else acc @ [x]) xs"

definition new_Set :: "'a list \<Rightarrow> 'a list" where
  "new_Set xs = Set_add_all [] xs"

text \<open>
  \<open>Array.prototype.sort\<close> with a comparator: a stable sort.  For a consistent comparator
  every stable sort gives the same array; this one inserts from the right.
\<close>

fun insert_sorted :: "('a \<Rightarrow> 'a \<Rightarrow> int) \<Rightarrow> 'a \<Rightarrow> 'a list \<Rightarrow> 'a list" where
  "insert_sorted c x [] = [x]"
| "insert_sorted c x (y # ys) = (if c x y \<le> 0 then x # y # ys else y # insert_sorted c x ys)"

fun Array_sort :: "('a \<Rightarrow> 'a \<Rightarrow> int) \<Rightarrow> 'a list \<Rightarrow> 'a list" where
  "Array_sort c [] = []"
| "Array_sort c (x # xs) = insert_sorted c x (Array_sort c xs)"

text \<open>
  What ECMAScript asks of a comparator for the result of \<open>sort\<close> to be defined: the signs
  are antisymmetric and the order is transitive.
\<close>

definition consistent_comparator :: "('a \<Rightarrow> 'a \<Rightarrow> int) \<Rightarrow> bool" where
  "consistent_comparator c \<longleftrightarrow>
     (\<forall>a b. 0 < c a b \<longleftrightarrow> c b a < 0) \<and> (\<forall>a b d. c a b \<le> 0 \<and> c b d \<le> 0 \<longrightarrow> c a d \<le> 0)"

section \<open>The API client (services/api.js)\<close>

datatype http_method = GET | POST

record request =
  url :: jsstring
  http_method :: http_method
  body :: "jsval option"

datatype exn = Error jsstring

definition API_BASE_URL :: jsstring where
  "API_BASE_URL = js ''/api''"

text \<open>
  \<open>fetchApi\<close> calls \<open>fetch\<close> before its first \<open>await\<close>, so the request is issued when
  \<open>fetchApi\<close> is called.  The network is the list of the requests issued so far; the
  request returned stands for the promise of its reply.  \<open>body\<close> is the value handed to
  \<open>JSON.stringify\<close>; without a method, \<open>fetch\<close> sends a GET.
\<close>

definition fetchApi ::
  "jsstring \<Rightarrow> http_method \<Rightarrow> jsval option \<Rightarrow> request list \<Rightarrow> request \<times> request list" where
  "fetchApi endpoint m b net =
     (let r = \<lparr>url = API_BASE_URL @ endpoint, http_method = m, body = b\<rparr> in (r, net @ [r]))"

definition getTree :: "request list \<Rightarrow> request \<times> request list" where
  "getTree net = fetchApi (js ''/tree'') GET None net"

definition getStats :: "request list \<Rightarrow> request \<times> request list" where
  "getStats net = fetchApi (js ''/stats'') GET None net"

definition resetStats :: "request list \<Rightarrow> (exn + request) \<times> request list" where
  "resetStats net = (case fetchApi (js ''/reset-stats'') POST None net of (r, n) \<Rightarrow> (Inr r, n))"

definition getData :: "jsval \<Rightarrow> request list \<Rightarrow> (exn + request) \<times> request list" where
  "getData path net =
     (if \<not> Array_isArray path then (Inl (Error (js ''Path must be an array of strings.'')), net)
      else case fetchApi (js ''/get-data'') POST (Some (JObj [(js ''path'', path)])) net of
             (r, n) \<Rightarrow> (Inr r, n))"

definition addData :: "jsval \<Rightarrow> jsval \<Rightarrow> request list \<Rightarrow> (exn + request) \<times> request list" where
  "addData path data net =
     (if \<not> Array_isArray path then (Inl (Error (js ''Path must be an array of strings.'')), net)
      else case fetchApi (js ''/add-data'') POST
                  (Some (JObj [(js ''path'', path), (js ''data'', data)])) net of
             (r, n) \<Rightarrow> (Inr r, n))"

definition invalidatePath :: "jsval \<Rightarrow> request list \<Rightarrow> (exn + request) \<times> request list" where
  "invalidatePath path net =
     (if \<not> Array_isArray path then (Inl (Error (js ''Path must be an array of strings.'')), net)
      else case fetchApi (js ''/invalidate'') POST (Some (JObj [(js ''path'', path)])) net of
             (r, n) \<Rightarrow> (Inr r, n))"

section \<open>The operations of the dashboard (DependencyCacheVisualizer.jsx)\<close>

datatype api_fn = Api_getData | Api_addData | Api_invalidatePath | Api_resetStats

text \<open>A call of one of the API functions; an argument that is not passed is \<open>undefined\<close>.\<close>

fun call_api :: "api_fn \<Rightarrow> jsval \<Rightarrow> jsval \<Rightarrow> request list \<Rightarrow> (exn + request) \<times> request list" where
  "call_api Api_getData a1 a2 net = getData a1 net"
| "call_api Api_addData a1 a2 net = addData a1 a2 net"
| "call_api Api_invalidatePath a1 a2 net = invalidatePath a1 net"
| "call_api Api_resetStats a1 a2 net = resetStats net"

record op_result =
  op_type :: jsstring
  success :: bool
  op_path :: jsstring
  op_error :: "jsstring option"
  response :: "jsval option"

datatype toast = Toast_success jsstring | Toast_error jsstring

text \<open>
  The state of the component that the operations read and write.  The loading flags,
  which every operation sets at its start and clears in its \<open>finally\<close> block, are left out.
\<close>

record ui =
  ui_tree :: "jsval option"
  ui_stats :: "jsval option"
  ui_error :: "jsstring option"
  opPathInput :: jsstring
  opDataInput :: jsstring
  lastOperationResult :: "op_result option"
  autoRefreshInterval :: nat
  toasts :: "toast list"

text \<open>
  \<open>reply\<close> is the backend seen through \<open>fetchApi\<close>: what awaiting the promise of a request
  gives, an exception or the JSON of the response.  \<open>Promise.all\<close> rejects with the
  rejection that comes first; the model takes the one of the tree when both fail.  The
  timer of the auto-refresh runs iff \<open>autoRefreshInterval\<close> is positive, so stopping it
  when it runs is setting the interval to 0.
\<close>

definition fetchData ::
  "(request \<Rightarrow> exn + jsval) \<Rightarrow> ui \<Rightarrow> request list \<Rightarrow> ui \<times> request list" where
  "fetchData reply u net =
     (let u0 = u\<lparr>ui_error := None\<rparr>;
          (r1, net1) = getTree net;
          (r2, net2) = getStats net1;
          failed = (\<lambda>m.
            let errorMsg = js ''Failed to fetch data: '' @ m
            in u0\<lparr>ui_error := Some errorMsg, toasts := toasts u0 @ [Toast_error errorMsg],
                  autoRefreshInterval := 0\<rparr>)
      in case reply r1 of
           Inl (Error m) \<Rightarrow> (failed m, net2)
         | Inr treeData \<Rightarrow>
             (case reply r2 of
                Inl (Error m) \<Rightarrow> (failed m, net2)
              | Inr statsData \<Rightarrow> (u0\<lparr>ui_tree := Some treeData, ui_stats := Some statsData\<rparr>, net2)))"

text \<open>
  The \<open>try\<close> block of \<open>executeOperation\<close> up to the response.  \<open>parse\<close> is \<open>JSON.parse\<close>,
  \<open>None\<close> when it throws.
\<close>

definition operation_body ::
  "(request \<Rightarrow> exn + jsval) \<Rightarrow> (jsstring \<Rightarrow> jsval option) \<Rightarrow> ui \<Rightarrow> api_fn \<Rightarrow> bool \<Rightarrow>
     request list \<Rightarrow> (exn + jsval) \<times> request list" where
  "operation_body reply parse u operationFn requiresPath net =
     (let path = parsePath (opPathInput u)
      in if requiresPath \<and> length path = 0
         then (Inl (Error (js ''Path cannot be empty for this operation.'')), net)
         else
           let (called, net') =
                 (if operationFn = Api_addData then
                    let dataValue = (case parse (opDataInput u) of
                                       Some d \<Rightarrow> d | None \<Rightarrow> JStr (opDataInput u))
                    in call_api operationFn (JArr (map JStr path)) dataValue net
                  else if requiresPath then
                    call_api operationFn (JArr (map JStr path)) JUndefined net
                  else call_api operationFn JUndefined JUndefined net)
           in case called of
                Inl e \<Rightarrow> (Inl e, net')
              | Inr r \<Rightarrow> (reply r, net'))"

text \<open>\<open>executeOperation\<close>: the result data (\<open>null\<close> after a failure), the state and the network.\<close>

definition executeOperation ::
  "(request \<Rightarrow> exn + jsval) \<Rightarrow> (jsstring \<Rightarrow> jsval option) \<Rightarrow> ui \<Rightarrow> api_fn \<Rightarrow> jsstring \<Rightarrow>
     jsstring \<Rightarrow> bool \<Rightarrow> bool \<Rightarrow> request list \<Rightarrow> jsval \<times> ui \<times> request list" where
  "executeOperation reply parse u operationFn successMessage opType requiresPath clearDataInput net =
     (let u0 = u\<lparr>ui_error := None, lastOperationResult := None\<rparr>;
          currentPathStr = opPathInput u
      in case operation_body reply parse u operationFn requiresPath net of
           (Inr resp, net') \<Rightarrow>
             (let u1 = u0\<lparr>toasts := toasts u0 @ [Toast_success successMessage],
                         lastOperationResult :=
                           Some \<lparr>op_type = opType, success = True, op_path = currentPathStr,
                                 op_error = None, response = Some resp\<rparr>,
                         opDataInput := (if clearDataInput then js '''' else opDataInput u0)\<rparr>;
                  (u2, net'') = fetchData reply u1 net'
              in (resp, u2, net''))
         | (Inl (Error m), net') \<Rightarrow>
             (let errorMsg = js ''Operation failed: '' @ m
              in (JNull,
                  u0\<lparr>ui_error := Some errorMsg, toasts := toasts u0 @ [Toast_error errorMsg],
                     lastOperationResult :=
                       Some \<lparr>op_type = opType, success = False, op_path = currentPathStr,
                             op_error = Some m, response = None\<rparr>\<rparr>,
                  net')))"

definition handleGetData ::
  "(request \<Rightarrow> exn + jsval) \<Rightarrow> (jsstring \<Rightarrow> jsval option) \<Rightarrow> ui \<Rightarrow> request list \<Rightarrow>
     ui \<times> request list" where
  "handleGetData reply parse u net =
     (case executeOperation reply parse u Api_getData (js ''Data retrieved'') (js ''GET_DATA'')
             True False net of
        (result, u', net') \<Rightarrow>
          (if truthy result
           then u'\<lparr>lastOperationResult :=
                     Some \<lparr>op_type = js ''GET_DATA'', success = True, op_path = opPathInput u,
                           op_error = None, response = Some result\<rparr>\<rparr>
           else u',
           net'))"

definition handleAddData ::
  "(request \<Rightarrow> exn + jsval) \<Rightarrow> (jsstring \<Rightarrow> jsval option) \<Rightarrow> ui \<Rightarrow> request list \<Rightarrow>
     ui \<times> request list" where
  "handleAddData reply parse u net =
     (case executeOperation reply parse u Api_addData (js ''Data added/updated'')
             (js ''ADD_DATA'') True True net of
        (result, u', net') \<Rightarrow> (u', net'))"

definition handleInvalidate ::
  "(request \<Rightarrow> exn + jsval) \<Rightarrow> (jsstring \<Rightarrow> jsval option) \<Rightarrow> ui \<Rightarrow> request list \<Rightarrow>
     ui \<times> request list" where
  "handleInvalidate reply parse u net =
     (case executeOperation reply parse u Api_invalidatePath (js ''Path invalidated'')
             (js ''INVALIDATE'') True False net of
        (result, u', net') \<Rightarrow> (u', net'))"

text \<open>What an operation with an empty path leaves in the state.\<close>

definition empty_path_failure :: "ui \<Rightarrow> jsstring \<Rightarrow> ui" where
  "empty_path_failure u opType =
     u\<lparr>ui_error := Some (js ''Operation failed: Path cannot be empty for this operation.''),
       toasts := toasts u
         @ [Toast_error (js ''Operation failed: Path cannot be empty for this operation.'')],
       lastOperationResult :=
         Some \<lparr>op_type = opType, success = False, op_path = opPathInput u,
               op_error = Some (js ''Path cannot be empty for this operation.''),
               response = None\<rparr>\<rparr>"

section \<open>The tree view (TreeView.jsx)\<close>

text \<open>A node of the tree snapshot, as the backend serialises it.\<close>

datatype snapshot =
  Snapshot (snap_identifier: jsstring) (snap_has_data: bool)
    (snap_children: "(jsstring \<times> snapshot) list")

text \<open>The props of a \<open>TreeNode\<close> element that differ between elements.\<close>

record tree_node_props =
  node :: snapshot
  level :: nat
  path :: "jsstring list"

text \<open>
  What a \<open>TreeNode\<close> renders: its row and, inside the \<open>Collapse\<close>, the elements of its
  children, which React mounts when the node is expanded.
\<close>

record tree_node_view =
  currentPath :: "jsstring list"
  isExpanded :: bool
  hasChildren :: bool
  isSelected :: bool
  child_elements :: "tree_node_props list"

text \<open>
  The comparator of both sorts, \<open>(a, b) => a.identifier.localeCompare(b.identifier)\<close>.
  \<open>localeCompare\<close> is the collation of the host, a parameter here.
\<close>

definition by_identifier :: "(jsstring \<Rightarrow> jsstring \<Rightarrow> int) \<Rightarrow> snapshot \<Rightarrow> snapshot \<Rightarrow> int" where
  "by_identifier localeCompare a b = localeCompare (snap_identifier a) (snap_identifier b)"

definition TreeNode ::
  "(jsstring \<Rightarrow> jsstring \<Rightarrow> int) \<Rightarrow> jsobject \<Rightarrow> jsstring option \<Rightarrow> tree_node_props \<Rightarrow>
     tree_node_view option" where
  "TreeNode localeCompare expandedNodes selectedNodePathStr props =
     (if snap_identifier (node props) = [] then None
      else
        let currentPath = path props @ [snap_identifier (node props)];
            currentPathStr = join (js ''/'') currentPath;
            hasChildren = (length (Object_keys (snap_children (node props))) > 0)
        in Some
          \<lparr>currentPath = currentPath,
           isExpanded = truthy (or_else (get_property expandedNodes currentPathStr) (JBool False)),
           hasChildren = hasChildren,
           isSelected = (selectedNodePathStr = Some currentPathStr),
           child_elements =
             (if hasChildren
              then map (\<lambda>childNode. \<lparr>node = childNode, level = level props + 1, path = currentPath\<rparr>)
                     (Array_sort (by_identifier localeCompare)
                        (Object_values (snap_children (node props))))
              else [])\<rparr>)"

datatype tree_view = Loading | Cache_is_empty | Nodes "tree_node_props list"

definition rootChildren :: "(jsstring \<Rightarrow> jsstring \<Rightarrow> int) \<Rightarrow> snapshot \<Rightarrow> snapshot list" where
  "rootChildren localeCompare tree =
     Array_sort (by_identifier localeCompare) (Object_values (snap_children tree))"

definition TreeView :: "(jsstring \<Rightarrow> jsstring \<Rightarrow> int) \<Rightarrow> snapshot option \<Rightarrow> tree_view" where
  "TreeView localeCompare tree =
     (case tree of
        None \<Rightarrow> Loading
      | Some t \<Rightarrow>
          if length (rootChildren localeCompare t) = 0 then Cache_is_empty
          else Nodes (map (\<lambda>n. \<lparr>node = n, level = 0, path = [js ''root'']\<rparr>)
                        (rootChildren localeCompare t)))"

text \<open>
  A collation to run the tree view with: the order of the code units, which is what
  \<open>localeCompare\<close> gives on lower-case ASCII letters and digits.
\<close>

definition code_unit_compare :: "jsstring \<Rightarrow> jsstring \<Rightarrow> int" where
  "code_unit_compare a b = (if a < b then - 1 else if a = b then 0 else 1)"

text \<open>
  A collation that, as \<open>localeCompare\<close> does, takes canonically equivalent strings for
  equal: the letter a followed by the combining acute accent (U+0061 U+0301) is the
  letter U+00E1.  Other compositions are left out.
\<close>

fun compose :: "jsstring \<Rightarrow> jsstring" where
  "compose (a # b # cs) =
     (if a = 0x0061 \<and> b = 0x0301 then 0x00E1 # compose cs else a # compose (b # cs))"
| "compose cs = cs"

definition canonical_compare :: "jsstring \<Rightarrow> jsstring \<Rightarrow> int" where
  "canonical_compare a b = code_unit_compare (compose a) (compose b)"

text \<open>No two of the children have identifiers that the collation takes for equal.\<close>

definition no_ties :: "(jsstring \<Rightarrow> jsstring \<Rightarrow> int) \<Rightarrow> snapshot list \<Rightarrow> bool" where
  "no_ties localeCompare xs \<longleftrightarrow>
     (\<forall>a \<in> set xs. \<forall>b \<in> set xs.
        localeCompare (snap_identifier a) (snap_identifier b) = 0 \<longrightarrow> a = b)"

text \<open>Ascending order of the identifiers in the collation.\<close>

definition identifier_le :: "(jsstring \<Rightarrow> jsstring \<Rightarrow> int) \<Rightarrow> snapshot \<Rightarrow> snapshot \<Rightarrow> bool" where
  "identifier_le localeCompare a b \<longleftrightarrow>
     localeCompare (snap_identifier a) (snap_identifier b) \<le> 0"

section \<open>The statistics table (StatsPanel.jsx)\<close>

text \<open>
  The five per-path mappings of the statistics response; a mapping that the response
  lacks is \<open>None\<close> and takes the default \<open>{}\<close> of the destructuring.
\<close>

record stats_response =
  r_paths_checked :: "jsobject option"
  r_paths_hit :: "jsobject option"
  r_paths_missed :: "jsobject option"
  r_paths_added :: "jsobject option"
  r_paths_invalidated :: "jsobject option"

record path_row =
  row_path :: jsstring
  checked :: jsval
  hit :: jsval
  missed :: jsval
  added :: jsval
  invalidated :: jsval

definition zero :: jsval where
  "zero = JNum (Finite 0)"

text \<open>
  \<open>formatStat\<close>, which prints the cells of the table.  \<open>toLocaleString\<close> is the number
  format of the host, a parameter here.
\<close>

definition formatStat :: "(jsnumber \<Rightarrow> jsstring) \<Rightarrow> jsval \<Rightarrow> jsstring" where
  "formatStat toLocaleString v = (case v of JNum n \<Rightarrow> toLocaleString n | _ \<Rightarrow> js ''N/A'')"

definition pathTableData ::
  "jsobject \<Rightarrow> jsobject \<Rightarrow> jsobject \<Rightarrow> jsobject \<Rightarrow> jsobject \<Rightarrow> path_row list" where
  "pathTableData paths_checked paths_hit paths_missed paths_added paths_invalidated =
     (let allPaths = new_Set (Object_keys paths_checked @ Object_keys paths_hit
                        @ Object_keys paths_missed @ Object_keys paths_added
                        @ Object_keys paths_invalidated)
      in map (\<lambda>pathKey.
               \<lparr>row_path = pathKey,
                checked = or_else (get_property paths_checked pathKey) zero,
                hit = or_else (get_property paths_hit pathKey) zero,
                missed = or_else (get_property paths_missed pathKey) zero,
                added = or_else (get_property paths_added pathKey) zero,
                invalidated = or_else (get_property paths_invalidated pathKey) zero\<rparr>)
             allPaths)"

definition default_object :: "jsobject option \<Rightarrow> jsobject" where
  "default_object v = (case v of None \<Rightarrow> [] | Some obj \<Rightarrow> obj)"

definition StatsPanel_table :: "stats_response option \<Rightarrow> path_row list" where
  "StatsPanel_table stats =
     (case stats of
        None \<Rightarrow> pathTableData [] [] [] [] []
      | Some s \<Rightarrow>
          pathTableData (default_object (r_paths_checked s)) (default_object (r_paths_hit s))
            (default_object (r_paths_missed s)) (default_object (r_paths_added s))
            (default_object (r_paths_invalidated s)))"

section \<open>The cache engine\<close>

text \<open>
  The engine (DependencyTree and DataCache of \<open>dependency_cache_visualizer.core\<close>) is not
  among the sources; the dashboard only calls it through the backend.  Its definitions
  below are modelled from the specification, sections 3 and 4.
\<close>

type_synonym path = "string list"
type_synonym time = real

text \<open>
  Modelled from the spec: the Node of section 3 (the class is missing from the sources).
  \<open>node_value\<close>, \<open>data_hash\<close> and \<open>timestamp\<close> are present iff \<open>has_data\<close>.
\<close>

datatype 'v node =
  Node (node_identifier: string) (has_data: bool) (node_value: "'v option")
    (data_hash: "string option") (timestamp: "time option")
    (children: "string \<rightharpoonup> 'v node")

text \<open>
  Modelled from the spec: a node as \<open>ensure_path\<close> creates it, without data or children
  (the constructor is missing from the sources).
\<close>

definition new_node :: "string \<Rightarrow> 'v node" where
  "new_node s = Node s False None None None Map.empty"

text \<open>
  Modelled from the spec: an assignment to the \<open>children\<close> mapping of a node (the class is
  missing from the sources).
\<close>

definition set_children :: "'v node \<Rightarrow> (string \<rightharpoonup> 'v node) \<Rightarrow> 'v node" where
  "set_children n cs =
     Node (node_identifier n) (has_data n) (node_value n) (data_hash n) (timestamp n) cs"

text \<open>
  Modelled from the spec: \<open>DependencyTree.find\<close> (section 4.1), which walks from the
  root following existing children only.
\<close>

fun find_node :: "'v node \<Rightarrow> path \<Rightarrow> 'v node option" where
  "find_node t [] = Some t"
| "find_node t (s # ss) =
     (case children t s of None \<Rightarrow> None | Some c \<Rightarrow> find_node c ss)"

text \<open>
  Modelled from the spec: \<open>DependencyTree.ensure_path\<close> (section 4.1), which creates the
  missing nodes along the path with \<open>has_data = false\<close>.  The result is the tree after
  the walk; the terminal node is the one \<open>find_node\<close> then returns.
\<close>

fun ensure_path :: "'v node \<Rightarrow> path \<Rightarrow> 'v node" where
  "ensure_path t [] = t"
| "ensure_path t (s # ss) =
     set_children t ((children t)(s \<mapsto>
       ensure_path (case children t s of None \<Rightarrow> new_node s | Some c \<Rightarrow> c) ss))"

text \<open>
  Modelled from the spec: the writes of \<open>DataCache.add\<close> to the node that \<open>ensure_path\<close>
  returned (section 4.2; the method is missing from the sources), as an update of the node
  at the path.
\<close>

fun modify :: "('v node \<Rightarrow> 'v node) \<Rightarrow> 'v node \<Rightarrow> path \<Rightarrow> 'v node" where
  "modify f t [] = f t"
| "modify f t (s # ss) =
     (case children t s of
        None \<Rightarrow> t
      | Some c \<Rightarrow> set_children t ((children t)(s \<mapsto> modify f c ss)))"

text \<open>
  Modelled from the spec: \<open>DependencyTree.collapse\<close> (section 4.1): if no node is at
  the path, false and no change; otherwise the node is detached from its parent, with
  its subtree.  The root has no parent and is never destroyed.
\<close>

fun detach :: "'v node \<Rightarrow> path \<Rightarrow> 'v node" where
  "detach t [] = t"
| "detach t [s] = set_children t ((children t)(s := None))"
| "detach t (s # ss) =
     (case children t s of
        None \<Rightarrow> t
      | Some c \<Rightarrow> set_children t ((children t)(s \<mapsto> detach c ss)))"

definition collapse :: "'v node \<Rightarrow> path \<Rightarrow> bool \<times> 'v node" where
  "collapse t p =
     (if p = [] then (False, t)
      else case find_node t p of None \<Rightarrow> (False, t) | Some _ \<Rightarrow> (True, detach t p))"

text \<open>
  Modelled from the spec: the statistics ledger of section 3.  The per-path mappings are
  keyed by the path string, which separates the segments with \<open>/\<close> (section 6).
\<close>

record ledger =
  gets :: nat
  hits :: nat
  misses :: nat
  adds :: nat
  invalidations :: nat
  paths_checked :: "string \<rightharpoonup> nat"
  paths_hit :: "string \<rightharpoonup> nat"
  paths_missed :: "string \<rightharpoonup> nat"
  paths_added :: "string \<rightharpoonup> nat"
  paths_invalidated :: "string \<rightharpoonup> nat"

text \<open>
  Modelled from the spec: the key of a path in the per-path mappings and the increment of a
  counter, an entry appearing with the first count (section 3; the ledger code is missing
  from the sources).
\<close>

definition path_string :: "path \<Rightarrow> string" where
  "path_string p = join ''/'' p"

definition increment :: "(string \<rightharpoonup> nat) \<Rightarrow> string \<Rightarrow> (string \<rightharpoonup> nat)" where
  "increment m k = m(k \<mapsto> (case m k of None \<Rightarrow> 1 | Some n \<Rightarrow> n + 1))"

text \<open>
  Modelled from the spec: the DataCache of section 2, a tree and a ledger, the error of
  section 7 and the result of \<open>get\<close> of section 4.2 (all missing from the sources).
\<close>

record 'v cache =
  tree :: "'v node"
  stats :: ledger

datatype error = InvalidPath

record 'v get_result =
  exists :: bool
  result_value :: "'v option"
  result_hash :: "string option"
  result_timestamp :: "time option"

definition does_not_exist :: "'v get_result" where
  "does_not_exist =
     \<lparr>exists = False, result_value = None, result_hash = None, result_timestamp = None\<rparr>"

text \<open>
  Modelled from the spec: \<open>DataCache.get\<close> (section 4.2), missing from the sources.  A
  node without data is treated as non-existent.
\<close>

definition get :: "'v cache \<Rightarrow> path \<Rightarrow> (error + 'v get_result) \<times> 'v cache" where
  "get c p =
     (if p = [] then (Inl InvalidPath, c)
      else
        let l = (stats c)\<lparr>gets := gets (stats c) + 1,
                  paths_checked := increment (paths_checked (stats c)) (path_string p)\<rparr>;
            hit = (case find_node (tree c) p of None \<Rightarrow> None
                   | Some n \<Rightarrow> if has_data n then Some n else None)
        in case hit of
             Some n \<Rightarrow>
               (Inr \<lparr>exists = True, result_value = node_value n, result_hash = data_hash n,
                     result_timestamp = timestamp n\<rparr>,
                c\<lparr>stats := l\<lparr>hits := hits l + 1,
                       paths_hit := increment (paths_hit l) (path_string p)\<rparr>\<rparr>)
           | None \<Rightarrow>
               (Inr does_not_exist,
                c\<lparr>stats := l\<lparr>misses := misses l + 1,
                       paths_missed := increment (paths_missed l) (path_string p)\<rparr>\<rparr>))"

text \<open>
  Modelled from the spec: \<open>DataCache.add\<close> (section 4.2), missing from the sources.  The
  content hash \<open>H\<close> and the current time \<open>now\<close> are parameters; \<open>store\<close> sets
  \<open>has_data\<close>, the value, its hash and the time of the write.
\<close>

definition store :: "('v \<Rightarrow> string) \<Rightarrow> time \<Rightarrow> 'v \<Rightarrow> 'v node \<Rightarrow> 'v node" where
  "store H now v n = Node (node_identifier n) True (Some v) (Some (H v)) (Some now) (children n)"

definition add ::
  "('v \<Rightarrow> string) \<Rightarrow> time \<Rightarrow> 'v cache \<Rightarrow> path \<Rightarrow> 'v \<Rightarrow> (error + unit) \<times> 'v cache" where
  "add H now c p v =
     (if p = [] then (Inl InvalidPath, c)
      else
        (Inr (),
         c\<lparr>tree := modify (store H now v) (ensure_path (tree c) p) p,
           stats := (stats c)\<lparr>adds := adds (stats c) + 1,
                      paths_added := increment (paths_added (stats c)) (path_string p)\<rparr>\<rparr>))"

text \<open>
  Modelled from the spec: \<open>DataCache.invalidate\<close> (section 4.2), missing from the sources.
\<close>

definition invalidate :: "'v cache \<Rightarrow> path \<Rightarrow> (error + bool) \<times> 'v cache" where
  "invalidate c p =
     (if p = [] then (Inl InvalidPath, c)
      else
        case collapse (tree c) p of
          (True, t) \<Rightarrow>
            (Inr True,
             c\<lparr>tree := t,
               stats := (stats c)\<lparr>invalidations := invalidations (stats c) + 1,
                          paths_invalidated :=
                            increment (paths_invalidated (stats c)) (path_string p)\<rparr>\<rparr>)
        | (False, t) \<Rightarrow> (Inr False, c))"

text \<open>Modelled from the spec: the cache at construction, a root without data or children.\<close>

definition empty_ledger :: ledger where
  "empty_ledger =
     \<lparr>gets = 0, hits = 0, misses = 0, adds = 0, invalidations = 0,
      paths_checked = Map.empty, paths_hit = Map.empty, paths_missed = Map.empty,
      paths_added = Map.empty, paths_invalidated = Map.empty\<rparr>"

definition empty_cache :: "'v cache" where
  "empty_cache = \<lparr>tree = new_node ''root'', stats = empty_ledger\<rparr>"

text \<open>What \<open>get\<close> reads of a node: its data, not its children.\<close>

definition node_data :: "'v node \<Rightarrow> bool \<times> 'v option \<times> string option \<times> time option" where
  "node_data n = (has_data n, node_value n, data_hash n, timestamp n)"

section \<open>Scenarios\<close>

text \<open>A content hash to run the engine with.\<close>

definition H0 :: "string \<Rightarrow> string" where
  "H0 v = ''#'' @ v"

text \<open>The cascade scenario of section 8 of the specification, before the invalidation.\<close>

definition cascade_cache :: "string cache" where
  "cascade_cache =
     snd (add H0 3 (snd (add H0 2 (snd (add H0 1 empty_cache [''a'', ''b''] ''one''))
       [''a'', ''b'', ''c''] ''two'')) [''a'', ''d''] ''three'')"

text \<open>A snapshot whose children are not in the order of their identifiers.\<close>

definition users_node :: snapshot where
  "users_node =
     Snapshot (js ''users'') False
       [(js ''2'', Snapshot (js ''2'') True []), (js ''1'', Snapshot (js ''1'') True [])]"

definition users_tree :: snapshot where
  "users_tree =
     Snapshot (js ''root'') False
       [(js ''users'', users_node), (js ''admin'', Snapshot (js ''admin'') True [])]"

definition users_tree_reordered :: snapshot where
  "users_tree_reordered =
     Snapshot (js ''root'') False
       [(js ''admin'', Snapshot (js ''admin'') True []), (js ''users'', users_node)]"

text \<open>
  Two snapshots with the same two children in opposite orders; the identifiers are the
  two spellings of the same accented letter, U+00E1 and U+0061 U+0301.
\<close>

definition accent_tree :: snapshot where
  "accent_tree =
     Snapshot (js ''root'') False
       [([0x00E1], Snapshot [0x00E1] True []),
        ([0x0061, 0x0301], Snapshot [0x0061, 0x0301] True [])]"

definition accent_tree_reordered :: snapshot where
  "accent_tree_reordered =
     Snapshot (js ''root'') False
       [([0x0061, 0x0301], Snapshot [0x0061, 0x0301] True []),
        ([0x00E1], Snapshot [0x00E1] True [])]"

text \<open>The dashboard with a path input that holds no segment, and a backend that answers.\<close>

definition blank_ui :: ui where
  "blank_ui =
     \<lparr>ui_tree = None, ui_stats = None, ui_error = None, opPathInput = js '' / '',
      opDataInput = js ''1'', lastOperationResult = None, autoRefreshInterval = 0,
      toasts = []\<rparr>"

definition reply_null :: "request \<Rightarrow> exn + jsval" where
  "reply_null r = Inr JNull"

definition parse_fails :: "jsstring \<Rightarrow> jsval option" where
  "parse_fails s = None"

text \<open>A statistics response in which one path was added and never read.\<close>

definition constructor_stats :: stats_response where
  "constructor_stats =
     \<lparr>r_paths_checked = Some [], r_paths_hit = Some [], r_paths_missed = Some [],
      r_paths_added = Some [(js ''constructor'', JNum (Finite 1))],
      r_paths_invalidated = Some []\<rparr>"

section \<open>Splitting and joining\<close>

lemma split_nonempty: "split sep s \<noteq> []"
  by (induction s) (simp_all add: Let_def)

lemma join_Cons: "ps \<noteq> [] \<Longrightarrow> join sep (p # ps) = p @ sep @ join sep ps"
  by (cases ps) simp_all

lemma join_split: "join [sep] (split sep s) = s"
proof (induction s)
  case Nil
  show ?case by simp
next
  case (Cons c cs)
  obtain p ps where ps: "split sep cs = p # ps"
    using split_nonempty [of sep cs] by (cases "split sep cs") auto
  show ?case
  proof (cases "c = sep")
    case True
    with Cons ps show ?thesis by (simp add: join_Cons)
  next
    case False
    with Cons ps show ?thesis by (cases ps) simp_all
  qed
qed

lemma split_no_sep: "p \<in> set (split sep s) \<Longrightarrow> sep \<notin> set p"
proof (induction s arbitrary: p)
  case Nil
  then show ?case by simp
next
  case (Cons c cs)
  obtain q qs where qs: "split sep cs = q # qs"
    using split_nonempty [of sep cs] by (cases "split sep cs") auto
  from Cons.IH [of q] qs have q: "sep \<notin> set q" by simp
  from Cons.IH qs have rest: "\<And>r. r \<in> set qs \<Longrightarrow> sep \<notin> set r" by simp
  from Cons.prems qs q rest show ?case
    by (auto simp: Let_def split: if_splits)
qed

lemma split_plain: "sep \<notin> set x \<Longrightarrow> split sep x = [x]"
  by (induction x) (auto simp: Let_def)

lemma split_append_sep:
  "sep \<notin> set x \<Longrightarrow> split sep (x @ sep # rest) = x # split sep rest"
  by (induction x) (auto simp: Let_def)

lemma split_join:
  "ps \<noteq> [] \<Longrightarrow> (\<And>p. p \<in> set ps \<Longrightarrow> sep \<notin> set p) \<Longrightarrow> split sep (join [sep] ps) = ps"
proof (induction ps)
  case Nil
  then show ?case by simp
next
  case (Cons x xs)
  show ?case
  proof (cases xs)
    case Nil
    with Cons.prems show ?thesis by (simp add: split_plain)
  next
    case (Cons y ys)
    with Cons.prems Cons.IH have "split sep (join [sep] xs) = xs" by simp
    with Cons Cons.prems show ?thesis by (simp add: split_append_sep)
  qed
qed

lemma dropWhile_ws_Nil: "dropWhile is_ws p = [] \<longleftrightarrow> list_all is_ws p"
  by (simp add: list_all_iff)

lemma trim_empty_iff: "trim p = [] \<longleftrightarrow> list_all is_ws p"
proof (cases "dropWhile is_ws p")
  case Nil
  have "trim p = []" by (simp only: trim_def Nil rev.simps dropWhile.simps)
  moreover have "list_all is_ws p" using Nil dropWhile_ws_Nil by blast
  ultimately show ?thesis by simp
next
  case (Cons y ys)
  then have y: "\<not> is_ws y" using hd_dropWhile [of is_ws p] by simp
  have "dropWhile is_ws (rev (y # ys)) \<noteq> []"
  proof
    assume "dropWhile is_ws (rev (y # ys)) = []"
    then have "list_all is_ws (rev (y # ys))" using dropWhile_ws_Nil by blast
    with y show False by simp
  qed
  then have "trim p \<noteq> []" by (simp add: trim_def Cons del: dropWhile_eq_Nil_conv)
  moreover have "\<not> list_all is_ws p" using Cons dropWhile_ws_Nil [of p] by simp
  ultimately show ?thesis by simp
qed

lemma parsePath_filter:
  "parsePath s = filter (\<lambda>p. \<not> ignored_segment p) (split slash s)"
proof -
  have "(p \<noteq> [] \<and> trim p \<noteq> []) \<longleftrightarrow> \<not> ignored_segment p" for p
    by (cases p) (auto simp: trim_empty_iff ignored_segment_def)
  then show ?thesis by (simp add: parsePath_def)
qed

lemma js_slash: "js ''/'' = [slash]"
  by (simp add: js_def slash_def)

lemma formatPath_join:
  "formatPath (Some p) = join [slash] (if starts_with_root p then tl p else p)"
  by (cases p) (simp_all add: formatPath_def displayPath_def starts_with_root_def js_slash)

lemma formatPath_details_join:
  "formatPath_details (Some p) = join [slash] (if starts_with_root p then tl p else p)"
  by (cases p)
    (simp_all add: formatPath_details_def displayPath_def starts_with_root_def js_slash)

section \<open>Claims about the path helpers\<close>

text \<open>
  C5: \<open>parsePath\<close> splits the path string on \<open>'/'\<close> and drops the empty and the
  white-space-only pieces.  The pieces are the \<open>'/'\<close>-separated ones: none of them
  contains a \<open>'/'\<close>, and joined with \<open>'/'\<close> they give the string back.  So
  \<open>'a//b'\<close> and \<open>'a/b'\<close> give the same segments.
\<close>

theorem parsePath_drops_ignored_segments:
  "parsePath s = filter (\<lambda>p. \<not> ignored_segment p) (split slash s)
   \<and> join [slash] (split slash s) = s
   \<and> list_all (\<lambda>p. slash \<notin> set p) (split slash s)
   \<and> parsePath (js ''a//b'') = [js ''a'', js ''b'']
   \<and> parsePath (js ''a/b'') = [js ''a'', js ''b'']"
proof -
  have "list_all (\<lambda>p. slash \<notin> set p) (split slash s)"
    using split_no_sep [of _ slash s] by (auto simp: list_all_iff)
  moreover have "parsePath (js ''a//b'') = [js ''a'', js ''b'']"
    by (simp add: parsePath_def js_def slash_def trim_def is_ws_def)
  moreover have "parsePath (js ''a/b'') = [js ''a'', js ''b'']"
    by (simp add: parsePath_def js_def slash_def trim_def is_ws_def)
  ultimately show ?thesis
    using parsePath_filter [of s] join_split [of slash s] by simp
qed

theorem parsePath_drops_ignored_segments_witness:
  "parsePath (js '' /a//b c/'') = [js ''a'', js ''b c'']
   \<and> split slash (js '' /a//b c/'') = [js '' '', js ''a'', js '''', js ''b c'', js '''']"
  using parsePath_drops_ignored_segments [of "js '' /a//b c/''"]
  by (simp add: js_def slash_def ignored_segment_def is_ws_def)

text \<open>
  C7, as it holds: when the first element of the path array is \<open>'root'\<close>, \<open>formatPath\<close>
  (in both components) joins the elements after the first with \<open>'/'\<close>; otherwise it joins
  all of them.  Only one leading \<open>'root'\<close> is stripped.
\<close>

theorem formatPath_strips_leading_root:
  "(starts_with_root p \<longrightarrow>
      formatPath (Some p) = join (js ''/'') (tl p)
      \<and> formatPath_details (Some p) = join (js ''/'') (tl p))
   \<and> (\<not> starts_with_root p \<longrightarrow>
      formatPath (Some p) = join (js ''/'') p
      \<and> formatPath_details (Some p) = join (js ''/'') p)"
  by (simp add: formatPath_join formatPath_details_join js_slash)

theorem formatPath_strips_leading_root_witness:
  "starts_with_root [js ''root'', js ''users'', js ''1'']
   \<and> formatPath (Some [js ''root'', js ''users'', js ''1'']) = js ''users/1''
   \<and> \<not> starts_with_root [js ''users'', js ''1'']
   \<and> formatPath (Some [js ''users'', js ''1'']) = js ''users/1''"
  using formatPath_strips_leading_root [of "[js ''root'', js ''users'', js ''1'']"]
    formatPath_strips_leading_root [of "[js ''users'', js ''1'']"]
  by (simp add: starts_with_root_def js_def)

text \<open>
  C7, as it is worded, also says that for a path array starting with \<open>'root'\<close> the result
  is \<open>formatPath\<close> of the array without its first element.  That fails when the second
  element is \<open>'root'\<close> too: the tree view builds the array \<open>['root', 'root', 'a']\<close> for the
  cache path \<open>['root', 'a']\<close>.
\<close>

theorem formatPath_tail_counterexample:
  "starts_with_root [js ''root'', js ''root'', js ''a'']
   \<and> formatPath (Some [js ''root'', js ''root'', js ''a'']) = js ''root/a''
   \<and> formatPath (Some (tl [js ''root'', js ''root'', js ''a''])) = js ''a''
   \<and> formatPath (Some [js ''root'', js ''root'', js ''a''])
       \<noteq> formatPath (Some (tl [js ''root'', js ''root'', js ''a'']))"
  by (simp add: formatPath_def displayPath_def starts_with_root_def js_def)

text \<open>
  C8: a non-empty array of segments, none of which contains \<open>'/'\<close> or is empty or
  white space only, and whose first element is not \<open>'root'\<close>, is read back by
  \<open>parsePath\<close> from what \<open>formatPath\<close> prints.
\<close>

theorem parsePath_formatPath:
  assumes "p \<noteq> []"
    and "\<forall>x \<in> set p. slash \<notin> set x \<and> \<not> ignored_segment x"
    and "hd p \<noteq> js ''root''"
  shows "parsePath (formatPath (Some p)) = p"
proof -
  from assms(1,3) have "\<not> starts_with_root p"
    by (cases p) (simp_all add: starts_with_root_def)
  then have "formatPath (Some p) = join [slash] p"
    by (simp add: formatPath_join)
  moreover from assms(1,2) have "split slash (join [slash] p) = p"
    by (intro split_join) auto
  moreover from assms(2) have "filter (\<lambda>x. \<not> ignored_segment x) p = p"
    by (simp add: filter_id_conv)
  ultimately show ?thesis
    by (simp add: parsePath_filter)
qed

theorem parsePath_formatPath_witness:
  "parsePath (formatPath (Some [js ''users'', js ''profile'', js ''data'']))
     = [js ''users'', js ''profile'', js ''data'']"
  using parsePath_formatPath [of "[js ''users'', js ''profile'', js ''data'']"]
  by (simp add: js_def slash_def ignored_segment_def is_ws_def)

section \<open>Claims about the API client and the operations\<close>

text \<open>
  C9: called with a path that is not an array, each of \<open>getData\<close>, \<open>addData\<close> and
  \<open>invalidatePath\<close> throws the error \<open>'Path must be an array of strings.'\<close> and issues
  no request: the network is as it was.
\<close>

theorem api_rejects_non_array:
  assumes "\<not> Array_isArray p"
  shows "getData p net = (Inl (Error (js ''Path must be an array of strings.'')), net)
    \<and> addData p d net = (Inl (Error (js ''Path must be an array of strings.'')), net)
    \<and> invalidatePath p net = (Inl (Error (js ''Path must be an array of strings.'')), net)"
  using assms by (simp add: getData_def addData_def invalidatePath_def)

theorem api_rejects_non_array_witness:
  "\<not> Array_isArray (JStr (js ''users/1''))
   \<and> getData (JStr (js ''users/1'')) [] = (Inl (Error (js ''Path must be an array of strings.'')), [])
   \<and> addData (JStr (js ''users/1'')) (JNum (Finite 1)) []
       = (Inl (Error (js ''Path must be an array of strings.'')), [])
   \<and> invalidatePath (JStr (js ''users/1'')) []
       = (Inl (Error (js ''Path must be an array of strings.'')), [])
   \<and> snd (getData (JArr [JStr (js ''users''), JStr (js ''1'')]) [])
       = [\<lparr>url = js ''/api/get-data'', http_method = POST,
           body = Some (JObj [(js ''path'', JArr [JStr (js ''users''), JStr (js ''1'')])])\<rparr>]"
  using api_rejects_non_array [of "JStr (js ''users/1'')" "[]" "JNum (Finite 1)"]
  by (simp add: getData_def fetchApi_def API_BASE_URL_def js_def Let_def)

lemma js_append: "js (a @ b) = js a @ js b"
  by (simp add: js_def)

lemma operation_body_empty:
  "parsePath (opPathInput u) = [] \<Longrightarrow>
   operation_body reply parse u fn True net
     = (Inl (Error (js ''Path cannot be empty for this operation.'')), net)"
  by (simp add: operation_body_def)

lemma executeOperation_empty:
  "parsePath (opPathInput u) = [] \<Longrightarrow>
   executeOperation reply parse u fn msg opType True clear net
     = (JNull, empty_path_failure u opType, net)"
  by (simp add: executeOperation_def operation_body_empty empty_path_failure_def Let_def
      js_append [symmetric])

text \<open>
  C4: with the empty path, each of \<open>get\<close>, \<open>add\<close> and \<open>invalidate\<close> of the engine fails
  with \<open>InvalidPath\<close> and returns the cache as it was, tree and statistics.  In the
  dashboard, when the path input holds no segment, the operation throws
  \<open>'Path cannot be empty for this operation.'\<close> before any request: the handlers of get,
  add and invalidate leave the network as it was and report that error.
\<close>

theorem empty_path_rejected:
  "get c [] = (Inl InvalidPath, c)
   \<and> add H now c [] v = (Inl InvalidPath, c)
   \<and> invalidate c [] = (Inl InvalidPath, c)
   \<and> (parsePath (opPathInput u) = [] \<longrightarrow>
        operation_body reply parse u fn True net
          = (Inl (Error (js ''Path cannot be empty for this operation.'')), net)
        \<and> handleGetData reply parse u net = (empty_path_failure u (js ''GET_DATA''), net)
        \<and> handleAddData reply parse u net = (empty_path_failure u (js ''ADD_DATA''), net)
        \<and> handleInvalidate reply parse u net = (empty_path_failure u (js ''INVALIDATE''), net))"
  by (simp add: get_def add_def invalidate_def operation_body_empty executeOperation_empty
      handleGetData_def handleAddData_def handleInvalidate_def)

theorem empty_path_rejected_witness:
  "parsePath (opPathInput blank_ui) = []
   \<and> get cascade_cache [] = (Inl InvalidPath, cascade_cache)
   \<and> add H0 4 cascade_cache [] ''four'' = (Inl InvalidPath, cascade_cache)
   \<and> invalidate cascade_cache [] = (Inl InvalidPath, cascade_cache)
   \<and> snd (handleGetData reply_null parse_fails blank_ui []) = []
   \<and> snd (handleAddData reply_null parse_fails blank_ui []) = []
   \<and> snd (handleInvalidate reply_null parse_fails blank_ui []) = []
   \<and> map_option op_error
         (lastOperationResult (fst (handleInvalidate reply_null parse_fails blank_ui [])))
       = Some (Some (js ''Path cannot be empty for this operation.''))"
proof -
  have empty: "parsePath (opPathInput blank_ui) = []"
    by (simp add: blank_ui_def parsePath_def js_def slash_def trim_def is_ws_def)
  with empty_path_rejected
    [of cascade_cache H0 4 "''four''" blank_ui reply_null parse_fails Api_getData "[]"]
  show ?thesis
    by (simp add: empty_path_failure_def)
qed

section \<open>Sorting with a comparator\<close>

lemma set_insert_sorted: "set (insert_sorted c x xs) = insert x (set xs)"
  by (induction xs) auto

lemma mset_insert_sorted: "mset (insert_sorted c x xs) = add_mset x (mset xs)"
  by (induction xs) auto

lemma mset_Array_sort: "mset (Array_sort c xs) = mset xs"
  by (induction xs) (simp_all add: mset_insert_sorted)

lemma sorted_insert_sorted:
  assumes "consistent_comparator c" and "sorted_wrt (\<lambda>a b. c a b \<le> 0) xs"
  shows "sorted_wrt (\<lambda>a b. c a b \<le> 0) (insert_sorted c x xs)"
  using assms(2)
proof (induction xs)
  case Nil
  then show ?case by simp
next
  case (Cons y ys)
  show ?case
  proof (cases "c x y \<le> 0")
    case True
    have "c x z \<le> 0" if "z \<in> set ys" for z
    proof -
      from Cons.prems that have "c y z \<le> 0" by simp
      with True assms(1) show ?thesis unfolding consistent_comparator_def by blast
    qed
    with True Cons.prems show ?thesis by simp
  next
    case False
    then have "0 < c x y" by simp
    with assms(1) have "c y x < 0" unfolding consistent_comparator_def by blast
    with False Cons show ?thesis by (auto simp: set_insert_sorted)
  qed
qed

lemma sorted_Array_sort:
  "consistent_comparator c \<Longrightarrow> sorted_wrt (\<lambda>a b. c a b \<le> 0) (Array_sort c xs)"
  by (induction xs) (simp_all add: sorted_insert_sorted)

text \<open>Two sorted arrangements of the same elements agree when no two elements tie.\<close>

lemma sorted_wrt_unique:
  assumes "sorted_wrt le xs" "sorted_wrt le ys" "mset xs = mset ys"
    and "\<And>a b. a \<in> set xs \<Longrightarrow> b \<in> set xs \<Longrightarrow> le a b \<Longrightarrow> le b a \<Longrightarrow> a = b"
  shows "xs = ys"
  using assms
proof (induction xs arbitrary: ys)
  case Nil
  then show ?case by simp
next
  case (Cons x xs)
  from Cons.prems(3) obtain y ys' where ys: "ys = y # ys'"
    by (cases ys) auto
  have sets: "set (x # xs) = set ys"
    using Cons.prems(3) by (metis set_mset_mset)
  have "x = y"
  proof (rule ccontr)
    assume neq: "x \<noteq> y"
    with sets ys have mem: "x \<in> set ys'" "y \<in> set xs" by auto
    with Cons.prems(1,2) ys have "le y x" "le x y" by auto
    with Cons.prems(4) [of x y] mem have "x = y" by simp
    with neq show False by contradiction
  qed
  with Cons.prems ys have "xs = ys'"
    by (intro Cons.IH) auto
  with \<open>x = y\<close> ys show ?case by simp
qed

lemma consistent_comparator_on:
  "consistent_comparator c \<Longrightarrow> consistent_comparator (\<lambda>a b. c (f a) (f b))"
  unfolding consistent_comparator_def by blast

lemma consistent_by_identifier:
  "consistent_comparator lc \<Longrightarrow> consistent_comparator (by_identifier lc)"
  unfolding consistent_comparator_def by_identifier_def by blast

lemma consistent_code_unit_compare: "consistent_comparator code_unit_compare"
  unfolding consistent_comparator_def code_unit_compare_def by auto

lemma consistent_canonical_compare: "consistent_comparator canonical_compare"
proof -
  have "canonical_compare = (\<lambda>a b. code_unit_compare (compose a) (compose b))"
    by (simp add: canonical_compare_def fun_eq_iff)
  then show ?thesis
    using consistent_comparator_on [OF consistent_code_unit_compare, of compose] by simp
qed

lemma TreeNode_children:
  "TreeNode lc ex sel props = Some view \<Longrightarrow>
     map node (child_elements view) = rootChildren lc (node props)"
  by (cases "snap_children (node props)")
    (auto simp: TreeNode_def rootChildren_def Let_def Object_keys_def Object_values_def
      comp_def split: if_splits)

lemma TreeNode_None: "TreeNode lc ex sel props = None \<longleftrightarrow> snap_identifier (node props) = []"
  by (simp add: TreeNode_def Let_def)

lemma rootChildren_Nil: "rootChildren lc t = [] \<longleftrightarrow> snap_children t = []"
proof -
  have "mset (rootChildren lc t) = mset (Object_values (snap_children t))"
    by (simp add: rootChildren_def mset_Array_sort)
  then have "rootChildren lc t = [] \<longleftrightarrow> Object_values (snap_children t) = []"
    by (metis mset_zero_iff)
  then show ?thesis by (simp add: Object_values_def)
qed

lemma TreeView_nodes:
  "(case TreeView lc (Some t) of
      Loading \<Rightarrow> False
    | Cache_is_empty \<Rightarrow> snap_children t = []
    | Nodes ns \<Rightarrow>
        map node ns = rootChildren lc t \<and> list_all (\<lambda>n. level n = 0 \<and> path n = [js ''root'']) ns)"
  by (simp add: TreeView_def rootChildren_Nil comp_def list_all_iff)

section \<open>Claims about the tree view\<close>

text \<open>
  C6, as it is worded, says that the order of display does not depend on the order of
  the \<open>children\<close> mapping.  The sort is stable, so children whose identifiers the
  collation takes for equal stay in the order of the mapping: the two spellings of one
  accented letter, U+00E1 and U+0061 U+0301, are displayed in one order for a mapping and
  in the other order for the mapping with the same children reversed, and both displays
  are in ascending order of the identifiers.
\<close>

theorem children_order_ties_counterexample:
  "consistent_comparator canonical_compare
   \<and> mset (Object_values (snap_children accent_tree_reordered))
       = mset (Object_values (snap_children accent_tree))
   \<and> map snap_identifier (rootChildren canonical_compare accent_tree)
       = [[0x00E1], [0x0061, 0x0301]]
   \<and> map snap_identifier (rootChildren canonical_compare accent_tree_reordered)
       = [[0x0061, 0x0301], [0x00E1]]
   \<and> sorted_wrt (identifier_le canonical_compare) (rootChildren canonical_compare accent_tree)
   \<and> sorted_wrt (identifier_le canonical_compare)
        (rootChildren canonical_compare accent_tree_reordered)
   \<and> rootChildren canonical_compare accent_tree_reordered
       \<noteq> rootChildren canonical_compare accent_tree
   \<and> TreeView canonical_compare (Some accent_tree_reordered)
       \<noteq> TreeView canonical_compare (Some accent_tree)"
proof -
  note ev = rootChildren_def accent_tree_def accent_tree_reordered_def Object_values_def
    by_identifier_def canonical_compare_def code_unit_compare_def identifier_le_def
  have "mset (Object_values (snap_children accent_tree_reordered))
       = mset (Object_values (snap_children accent_tree))"
    by (simp add: accent_tree_def accent_tree_reordered_def Object_values_def)
  moreover have "map snap_identifier (rootChildren canonical_compare accent_tree)
       = [[0x00E1], [0x0061, 0x0301]]"
    by (simp add: ev)
  moreover have "map snap_identifier (rootChildren canonical_compare accent_tree_reordered)
       = [[0x0061, 0x0301], [0x00E1]]"
    by (simp add: ev)
  moreover have
    "sorted_wrt (identifier_le canonical_compare) (rootChildren canonical_compare accent_tree)"
    by (simp add: ev)
  moreover have "sorted_wrt (identifier_le canonical_compare)
        (rootChildren canonical_compare accent_tree_reordered)"
    by (simp add: ev)
  moreover have "rootChildren canonical_compare accent_tree_reordered
       \<noteq> rootChildren canonical_compare accent_tree"
    by (simp add: ev)
  moreover have "TreeView canonical_compare (Some accent_tree_reordered)
       \<noteq> TreeView canonical_compare (Some accent_tree)"
    by (simp add: TreeView_def ev)
  ultimately show ?thesis
    using consistent_canonical_compare by simp
qed

text \<open>
  C6, as it holds: with a collation that is a consistent comparator, every \<open>TreeNode\<close>
  with an identifier renders, and its child elements are the children of its snapshot
  node (each once) in ascending order of their identifiers; the \<open>TreeView\<close> of a tree is
  never the loading message, it says that the cache is empty iff the root has no
  children, and otherwise its elements are the children of the root in ascending order of
  their identifiers, at level 0 under the path \<open>['root']\<close>.  Two mappings with the same
  children, no two of which have identifiers that tie in the collation, are displayed
  alike; the order of children that tie is not fixed by their identifiers.
\<close>

theorem children_in_identifier_order:
  assumes "consistent_comparator localeCompare"
  shows "(TreeNode localeCompare expandedNodes selected props = None
            \<longleftrightarrow> snap_identifier (node props) = [])
    \<and> (TreeNode localeCompare expandedNodes selected props = Some view \<longrightarrow>
            map node (child_elements view) = rootChildren localeCompare (node props))
    \<and> (case TreeView localeCompare (Some t) of
          Loading \<Rightarrow> False
        | Cache_is_empty \<Rightarrow> snap_children t = []
        | Nodes ns \<Rightarrow>
            map node ns = rootChildren localeCompare t
            \<and> list_all (\<lambda>n. level n = 0 \<and> path n = [js ''root'']) ns)
    \<and> sorted_wrt
          (\<lambda>a b. localeCompare (snap_identifier a) (snap_identifier b) \<le> 0)
          (rootChildren localeCompare t)
    \<and> mset (rootChildren localeCompare t) = mset (Object_values (snap_children t))
    \<and> (mset (Object_values (snap_children t')) = mset (Object_values (snap_children t))
         \<and> no_ties localeCompare (Object_values (snap_children t))
       \<longrightarrow> rootChildren localeCompare t' = rootChildren localeCompare t
           \<and> TreeView localeCompare (Some t') = TreeView localeCompare (Some t))"
proof -
  let ?c = "by_identifier localeCompare"
  let ?le = "\<lambda>a b. localeCompare (snap_identifier a) (snap_identifier b) \<le> 0"
  have c: "consistent_comparator ?c"
    using assms by (rule consistent_by_identifier)
  have le: "?le = (\<lambda>a b. ?c a b \<le> 0)"
    by (simp add: by_identifier_def fun_eq_iff)
  have sorted: "sorted_wrt ?le (rootChildren localeCompare u)" for u
    unfolding le rootChildren_def using c by (rule sorted_Array_sort)
  have perm: "mset (rootChildren localeCompare u) = mset (Object_values (snap_children u))" for u
    by (simp add: rootChildren_def mset_Array_sort)
  have same: "rootChildren localeCompare t' = rootChildren localeCompare t"
    if eq: "mset (Object_values (snap_children t')) = mset (Object_values (snap_children t))"
      and ties: "no_ties localeCompare (Object_values (snap_children t))"
  proof (rule sorted_wrt_unique [of ?le])
    show "sorted_wrt ?le (rootChildren localeCompare t')"
      by (rule sorted)
    show "sorted_wrt ?le (rootChildren localeCompare t)"
      by (rule sorted)
    show "mset (rootChildren localeCompare t') = mset (rootChildren localeCompare t)"
      using eq by (simp add: perm)
  next
    fix a b
    assume a: "a \<in> set (rootChildren localeCompare t')"
      and b: "b \<in> set (rootChildren localeCompare t')"
      and ab: "localeCompare (snap_identifier a) (snap_identifier b) \<le> 0"
      and ba: "localeCompare (snap_identifier b) (snap_identifier a) \<le> 0"
    have "set (rootChildren localeCompare t') = set (Object_values (snap_children t))"
      using perm [of t'] eq by (metis set_mset_mset)
    with a b have mem: "a \<in> set (Object_values (snap_children t))"
      "b \<in> set (Object_values (snap_children t))" by simp_all
    from ab ba assms have "localeCompare (snap_identifier a) (snap_identifier b) = 0"
      unfolding consistent_comparator_def by (metis not_less order_antisym)
    with ties mem show "a = b" unfolding no_ties_def by blast
  qed
  have view: "TreeView localeCompare (Some t') = TreeView localeCompare (Some t)"
    if "rootChildren localeCompare t' = rootChildren localeCompare t"
    using that by (simp add: TreeView_def)
  from TreeNode_None [of localeCompare expandedNodes selected props]
    TreeNode_children [of localeCompare expandedNodes selected props view]
    TreeView_nodes [where lc = localeCompare and t = t] sorted [of t] perm [of t] same view
  show ?thesis by blast
qed

theorem children_in_identifier_order_witness:
  "consistent_comparator code_unit_compare
   \<and> map snap_identifier (rootChildren code_unit_compare users_tree) = [js ''admin'', js ''users'']
   \<and> map snap_identifier (rootChildren code_unit_compare users_node) = [js ''1'', js ''2'']
   \<and> map_option (map (snap_identifier \<circ> node) \<circ> child_elements)
        (TreeNode code_unit_compare [] None \<lparr>node = users_node, level = 0, path = [js ''root'']\<rparr>)
       = Some [js ''1'', js ''2'']
   \<and> TreeView code_unit_compare (Some users_tree)
       = Nodes [\<lparr>node = Snapshot (js ''admin'') True [], level = 0, path = [js ''root'']\<rparr>,
                \<lparr>node = users_node, level = 0, path = [js ''root'']\<rparr>]
   \<and> no_ties code_unit_compare (Object_values (snap_children users_tree))
   \<and> rootChildren code_unit_compare users_tree_reordered = rootChildren code_unit_compare users_tree
   \<and> TreeView code_unit_compare (Some users_tree_reordered)
       = TreeView code_unit_compare (Some users_tree)"
proof -
  note ev = rootChildren_def users_tree_def users_tree_reordered_def users_node_def
    Object_values_def Object_keys_def by_identifier_def code_unit_compare_def js_def
  have sorted: "map snap_identifier (rootChildren code_unit_compare users_tree)
      = [js ''admin'', js ''users'']"
    "map snap_identifier (rootChildren code_unit_compare users_node) = [js ''1'', js ''2'']"
    by (simp_all add: ev)
  have rendered: "TreeNode code_unit_compare [] None
        \<lparr>node = users_node, level = 0, path = [js ''root'']\<rparr>
      = Some \<lparr>currentPath = [js ''root'', js ''users''], isExpanded = False,
          hasChildren = True, isSelected = False,
          child_elements =
            [\<lparr>node = Snapshot (js ''1'') True [], level = 1, path = [js ''root'', js ''users'']\<rparr>,
             \<lparr>node = Snapshot (js ''2'') True [], level = 1,
               path = [js ''root'', js ''users'']\<rparr>]\<rparr>"
    by (simp add: TreeNode_def Let_def ev get_property_def or_else_def
        Object_prototype_names_def)
  have shown: "TreeView code_unit_compare (Some users_tree)
       = Nodes [\<lparr>node = Snapshot (js ''admin'') True [], level = 0, path = [js ''root'']\<rparr>,
                \<lparr>node = users_node, level = 0, path = [js ''root'']\<rparr>]"
    by (simp add: TreeView_def ev)
  have same: "mset (Object_values (snap_children users_tree_reordered))
      = mset (Object_values (snap_children users_tree))"
    by (simp add: users_tree_def users_tree_reordered_def Object_values_def)
  have ties: "no_ties code_unit_compare (Object_values (snap_children users_tree))"
    by (simp add: no_ties_def ev)
  from children_in_identifier_order
    [OF consistent_code_unit_compare, of "[]" None
      "\<lparr>node = users_node, level = 0, path = [js ''root'']\<rparr>" _ users_tree users_tree_reordered]
    same ties
  have "rootChildren code_unit_compare users_tree_reordered
      = rootChildren code_unit_compare users_tree
    \<and> TreeView code_unit_compare (Some users_tree_reordered)
       = TreeView code_unit_compare (Some users_tree)"
    by blast
  with consistent_code_unit_compare sorted rendered shown ties show ?thesis
    by (simp add: users_node_def)
qed

section \<open>The statistics table\<close>

lemma set_Set_add_all: "set (Set_add_all acc xs) = set acc \<union> set xs"
  by (induction xs arbitrary: acc) auto

lemma distinct_Set_add_all: "distinct acc \<Longrightarrow> distinct (Set_add_all acc xs)"
  by (induction xs arbitrary: acc) auto

text \<open>
  The table has one row for every path in the union of the key sets of the five
  mappings, and no two rows for one path.
\<close>

lemma pathTableData_paths:
  "distinct (map row_path (pathTableData pc ph pm pa pv))
   \<and> set (map row_path (pathTableData pc ph pm pa pv))
       = set (Object_keys pc) \<union> set (Object_keys ph) \<union> set (Object_keys pm)
         \<union> set (Object_keys pa) \<union> set (Object_keys pv)"
  by (simp add: pathTableData_def Let_def comp_def new_Set_def set_Set_add_all
      distinct_Set_add_all Un_assoc)

text \<open>
  A count whose path is absent from its mapping is 0 when the path is not the name of a
  property of \<open>Object.prototype\<close>.
\<close>

lemma absent_count_zero:
  "map_of m k = None \<Longrightarrow> k \<notin> set Object_prototype_names \<Longrightarrow> or_else (get_property m k) zero = zero"
  by (simp add: get_property_def or_else_def)

text \<open>
  C10 asks for a count of 0 wherever the path is absent from the mapping.  The table
  reads \<open>paths_checked[pathKey] || 0\<close>, and the lookup also finds the properties that an
  object inherits: for the path \<open>constructor\<close>, added and never read, the counts of the
  four mappings that lack it are the inherited function, not 0, and their cells show
  \<open>N/A\<close>.
\<close>

theorem pathTableData_inherited_name:
  "map_of (default_object (r_paths_checked constructor_stats)) (js ''constructor'') = None
   \<and> StatsPanel_table (Some constructor_stats)
     = [\<lparr>row_path = js ''constructor'', checked = JInherited (js ''constructor''),
         hit = JInherited (js ''constructor''), missed = JInherited (js ''constructor''),
         added = JNum (Finite 1), invalidated = JInherited (js ''constructor'')\<rparr>]
   \<and> map checked (StatsPanel_table (Some constructor_stats)) \<noteq> [zero]
   \<and> map (formatStat toLocaleString \<circ> checked) (StatsPanel_table (Some constructor_stats))
       = [js ''N/A'']"
  by (simp add: StatsPanel_table_def pathTableData_def default_object_def new_Set_def
      Object_keys_def get_property_def or_else_def Object_prototype_names_def js_def zero_def
      constructor_stats_def formatStat_def)

section \<open>The cache engine: finding, creating and detaching nodes\<close>

lemma children_set_children [simp]: "children (set_children n cs) = cs"
  by (simp add: set_children_def)

lemma node_data_set_children [simp]: "node_data (set_children n cs) = node_data n"
  by (simp add: set_children_def node_data_def)

lemma find_node_append:
  "find_node t (p @ q) = (case find_node t p of None \<Rightarrow> None | Some n \<Rightarrow> find_node n q)"
  by (induction p arbitrary: t) (simp_all split: option.splits)

lemma find_detach_self: "p \<noteq> [] \<Longrightarrow> find_node (detach t p) p = None"
  by (induction t p rule: detach.induct) (simp_all split: option.splits)

lemma find_detach_under: "p \<noteq> [] \<Longrightarrow> find_node (detach t p) (p @ q) = None"
  by (simp add: find_node_append find_detach_self)

text \<open>Detaching a node leaves the data of every node that is not below it.\<close>

lemma find_detach_other:
  "\<not> prefix p q \<Longrightarrow>
     map_option node_data (find_node (detach t p) q) = map_option node_data (find_node t q)"
proof (induction t p arbitrary: q rule: detach.induct)
  case (1 t)
  then show ?case by simp
next
  case (2 t s)
  then show ?case by (cases q) auto
next
  case (3 t s s' ss)
  show ?case
  proof (cases q)
    case Nil
    then show ?thesis by (simp split: option.splits)
  next
    case (Cons x xs)
    with 3 show ?thesis by (auto split: option.splits)
  qed
qed

lemma find_ensure_path_Some: "find_node (ensure_path t p) p \<noteq> None"
  by (induction p arbitrary: t) simp_all

lemma find_modify: "find_node (modify f t p) p = map_option f (find_node t p)"
  by (induction p arbitrary: t) (simp_all split: option.splits)

lemma path_string_append:
  "p \<noteq> [] \<Longrightarrow> q \<noteq> [] \<Longrightarrow> path_string (p @ q) = path_string p @ ''/'' @ path_string q"
  unfolding path_string_def
proof (induction p)
  case Nil
  then show ?case by simp
next
  case (Cons x xs)
  then show ?case by (cases xs; cases q) simp_all
qed

text \<open>The path string of a descendant is not the one of the node.\<close>

lemma path_string_descendant:
  assumes "p \<noteq> []" "q \<noteq> []"
  shows "path_string (p @ q) \<noteq> path_string p"
proof
  assume "path_string (p @ q) = path_string p"
  then have "length (path_string (p @ q)) = length (path_string p)" by simp
  with assms show False by (simp add: path_string_append)
qed

text \<open>The result of \<open>get\<close> depends on the data of the node at the path only.\<close>

lemma get_result:
  "p \<noteq> [] \<Longrightarrow>
   fst (get c p) =
     Inr (case map_option node_data (find_node (tree c) p) of
            Some (True, v, h, ts) \<Rightarrow>
              \<lparr>exists = True, result_value = v, result_hash = h, result_timestamp = ts\<rparr>
          | _ \<Rightarrow> does_not_exist)"
  by (simp add: get_def Let_def node_data_def split: option.splits)

lemma collapse_tree:
  "find_node (snd (collapse t p)) (p @ q) = None" if "p \<noteq> []"
proof (cases "find_node t p")
  case None
  with that show ?thesis by (simp add: collapse_def find_node_append)
next
  case (Some n)
  with that show ?thesis by (simp add: collapse_def find_detach_under)
qed

lemma collapse_False: "\<not> fst (collapse t p) \<Longrightarrow> snd (collapse t p) = t"
  by (simp add: collapse_def split: option.splits if_splits)

lemma collapse_other:
  "\<not> prefix p q \<Longrightarrow>
   map_option node_data (find_node (snd (collapse t p)) q) = map_option node_data (find_node t q)"
  by (simp add: collapse_def find_detach_other split: option.splits)

lemma invalidate_tree: "p \<noteq> [] \<Longrightarrow> tree (snd (invalidate c p)) = snd (collapse (tree c) p)"
  using collapse_False [of "tree c" p]
  by (cases "collapse (tree c) p") (auto simp: invalidate_def split: bool.splits)

lemma invalidate_error: "fst (invalidate c p) = Inr b \<Longrightarrow> p \<noteq> []"
  by (auto simp: invalidate_def)

lemmas scenario_defs = cascade_cache_def add_def get_def invalidate_def collapse_def
  empty_cache_def empty_ledger_def new_node_def set_children_def store_def path_string_def
  increment_def does_not_exist_def Let_def H0_def

section \<open>Claims about the cache engine\<close>

text \<open>
  C1: when \<open>invalidate\<close> of a path \<open>p\<close> does not fail, \<open>get\<close> on \<open>p\<close> and on every path
  below \<open>p\<close> reports that nothing exists, \<open>get\<close> on every path that does not pass through
  \<open>p\<close> gives what it gave before, and the counters of the paths below \<open>p\<close> in
  \<open>paths_invalidated\<close> are as they were: when the node existed, \<open>paths_invalidated\<close>
  changes at \<open>p\<close> only, by one.
\<close>

theorem invalidate_cascades:
  assumes "fst (invalidate c p) = Inr b"
  shows "(\<forall>q. fst (get (snd (invalidate c p)) (p @ q)) = Inr does_not_exist)
    \<and> (\<forall>q. q \<noteq> [] \<and> \<not> prefix p q \<longrightarrow> fst (get (snd (invalidate c p)) q) = fst (get c q))
    \<and> (b \<longrightarrow> paths_invalidated (stats (snd (invalidate c p)))
               = increment (paths_invalidated (stats c)) (path_string p)
             \<and> invalidations (stats (snd (invalidate c p))) = invalidations (stats c) + 1)
    \<and> (\<forall>q. q \<noteq> [] \<longrightarrow>
          paths_invalidated (stats (snd (invalidate c p))) (path_string (p @ q))
            = paths_invalidated (stats c) (path_string (p @ q)))"
proof -
  from assms have p: "p \<noteq> []" by (rule invalidate_error)
  have under: "fst (get (snd (invalidate c p)) (p @ q)) = Inr does_not_exist" for q
    using p by (simp add: get_result invalidate_tree collapse_tree)
  have other: "fst (get (snd (invalidate c p)) q) = fst (get c q)"
    if "q \<noteq> []" "\<not> prefix p q" for q
    using p that by (simp add: get_result invalidate_tree collapse_other)
  have counted: "paths_invalidated (stats (snd (invalidate c p)))
               = increment (paths_invalidated (stats c)) (path_string p)
             \<and> invalidations (stats (snd (invalidate c p))) = invalidations (stats c) + 1"
    if b
    using assms that p by (auto simp: invalidate_def split: prod.splits bool.splits)
  have desc: "paths_invalidated (stats (snd (invalidate c p))) (path_string (p @ q))
            = paths_invalidated (stats c) (path_string (p @ q))" if "q \<noteq> []" for q
    using p path_string_descendant [OF p that]
    by (auto simp: invalidate_def increment_def split: prod.splits bool.splits)
  from under other counted desc show ?thesis by blast
qed

theorem invalidate_cascades_witness:
  "fst (invalidate cascade_cache [''a'', ''b'']) = Inr True
   \<and> fst (get (snd (invalidate cascade_cache [''a'', ''b''])) [''a'', ''b'']) = Inr does_not_exist
   \<and> fst (get (snd (invalidate cascade_cache [''a'', ''b''])) [''a'', ''b'', ''c''])
       = Inr does_not_exist
   \<and> fst (get (snd (invalidate cascade_cache [''a'', ''b''])) [''a'', ''d''])
       = Inr \<lparr>exists = True, result_value = Some ''three'', result_hash = Some ''#three'',
               result_timestamp = Some 3\<rparr>
   \<and> paths_invalidated (stats (snd (invalidate cascade_cache [''a'', ''b'']))) ''a/b'' = Some 1
   \<and> paths_invalidated (stats (snd (invalidate cascade_cache [''a'', ''b'']))) ''a/b/c'' = None"
proof -
  have ok: "fst (invalidate cascade_cache [''a'', ''b'']) = Inr True"
    by (simp add: scenario_defs)
  have before: "fst (get cascade_cache [''a'', ''d''])
       = Inr \<lparr>exists = True, result_value = Some ''three'', result_hash = Some ''#three'',
               result_timestamp = Some 3\<rparr>"
    by (simp add: scenario_defs)
  have none: "paths_invalidated (stats cascade_cache) = Map.empty"
    by (simp add: scenario_defs)
  note th = invalidate_cascades [OF ok]
  have under: "fst (get (snd (invalidate cascade_cache [''a'', ''b''])) ([''a'', ''b''] @ q))
      = Inr does_not_exist" for q
    using th by blast
  have other: "fst (get (snd (invalidate cascade_cache [''a'', ''b''])) [''a'', ''d''])
      = fst (get cascade_cache [''a'', ''d''])"
    using th by simp
  have counted: "paths_invalidated (stats (snd (invalidate cascade_cache [''a'', ''b''])))
      = increment (paths_invalidated (stats cascade_cache)) (path_string [''a'', ''b''])"
    using th by blast
  from under [of "[]"] under [of "[''c'']"] other counted ok before none show ?thesis
    by (simp add: path_string_def increment_def)
qed

text \<open>
  C2: for a non-empty path \<open>p\<close>, \<open>add\<close> of \<open>v\<close> at \<open>p\<close> succeeds and a \<open>get\<close> of \<open>p\<close> right
  after it reports that the node exists, with the value \<open>v\<close>, the hash of \<open>v\<close> and the
  time of the write; a second \<open>add\<close> at \<open>p\<close> replaces the value, the hash and the time.
\<close>

theorem add_then_get:
  assumes "p \<noteq> []"
  shows "fst (add H now c p v) = Inr ()
    \<and> fst (get (snd (add H now c p v)) p)
        = Inr \<lparr>exists = True, result_value = Some v, result_hash = Some (H v),
               result_timestamp = Some now\<rparr>
    \<and> fst (get (snd (add H now' (snd (add H now c p v)) p v')) p)
        = Inr \<lparr>exists = True, result_value = Some v', result_hash = Some (H v'),
               result_timestamp = Some now'\<rparr>"
proof -
  have stored: "fst (get (snd (add H t c p v)) p)
        = Inr \<lparr>exists = True, result_value = Some v, result_hash = Some (H v),
               result_timestamp = Some t\<rparr>" for t v and c :: "'a cache"
  proof -
    obtain n where "find_node (ensure_path (tree c) p) p = Some n"
      using find_ensure_path_Some [of "tree c" p] by auto
    with assms show ?thesis
      by (simp add: get_result add_def find_modify node_data_def store_def)
  qed
  have "fst (add H now c p v) = Inr ()"
    using assms by (simp add: add_def)
  with stored [of now c v] stored [of now' "snd (add H now c p v)" v'] show ?thesis
    by simp
qed

theorem add_then_get_witness:
  "fst (get (snd (add H0 7 empty_cache [''users'', ''1''] ''Al'')) [''users'', ''1''])
     = Inr \<lparr>exists = True, result_value = Some ''Al'', result_hash = Some ''#Al'',
             result_timestamp = Some 7\<rparr>
   \<and> fst (get (snd (add H0 8 (snd (add H0 7 empty_cache [''users'', ''1''] ''Al''))
                 [''users'', ''1''] ''Bo''))
        [''users'', ''1''])
     = Inr \<lparr>exists = True, result_value = Some ''Bo'', result_hash = Some ''#Bo'',
             result_timestamp = Some 8\<rparr>"
  using add_then_get [of "[''users'', ''1'']" H0 7 empty_cache "''Al''" 8 "''Bo''"]
  by (simp add: H0_def)

text \<open>
  C3: for a non-empty path \<open>p\<close> at which no node exists, \<open>invalidate\<close> returns false
  and the cache, counters and per-path mappings included, is as before.  So the second
  of two consecutive calls of \<open>invalidate\<close> on \<open>p\<close> returns false and leaves the
  statistics of the first.
\<close>

theorem invalidate_absent_noop:
  assumes "p \<noteq> []"
  shows "(find_node (tree c) p = None \<longrightarrow> invalidate c p = (Inr False, c))
    \<and> invalidate (snd (invalidate c p)) p = (Inr False, snd (invalidate c p))"
proof -
  have absent: "invalidate c p = (Inr False, c)" if "find_node (tree c) p = None"
    for c :: "'a cache"
    using assms that by (simp add: invalidate_def collapse_def)
  have "find_node (tree (snd (invalidate c p))) p = None"
    using assms collapse_tree [of p "tree c" "[]"] by (simp add: invalidate_tree)
  with absent show ?thesis by blast
qed

theorem invalidate_absent_noop_witness:
  "find_node (tree cascade_cache) [''a'', ''x''] = None
   \<and> invalidate cascade_cache [''a'', ''x''] = (Inr False, cascade_cache)
   \<and> fst (invalidate cascade_cache [''a'', ''b'']) = Inr True
   \<and> invalidate (snd (invalidate cascade_cache [''a'', ''b''])) [''a'', ''b'']
       = (Inr False, snd (invalidate cascade_cache [''a'', ''b'']))"
proof -
  have absent: "find_node (tree cascade_cache) [''a'', ''x''] = None"
    by (simp add: scenario_defs)
  have ok: "fst (invalidate cascade_cache [''a'', ''b'']) = Inr True"
    by (simp add: scenario_defs)
  from absent ok invalidate_absent_noop [of "[''a'', ''x'']" cascade_cache]
    invalidate_absent_noop [of "[''a'', ''b'']" cascade_cache]
  show ?thesis by simp
qed

end
